theory Spec2Isabelle
  imports Main
begin

section \<open>Values held by a record\<close>

text \<open>
  The cells of the staging tables and of the mapping sheets are Python objects. A
  \<open>pd.Timestamp\<close> is kept by its calendar fields; a float other than NaN and any object
  of another class (\<open>Decimal\<close>, \<open>UUID\<close>, \<open>datetime.date\<close>, ...) are kept by the text
  that \<open>str\<close> gives for them, which is all the transformation ever asks of them.
\<close>

datatype timestamp = Timestamp (ts_year: nat) (ts_month: nat) (ts_day: nat)
  (ts_hour: nat) (ts_minute: nat) (ts_second: nat)

datatype scalar =
    SStr string
  | SInt int
  | SFloat string
  | SBool bool
  | SNone
  | SNaN
  | SNaT
  | STimestamp timestamp
  | SOther string

text \<open>
  A cell is a scalar, a list of scalars (what an array column yields) or a dict (the JSON
  document built by \<open>build_json\<close> is one).
\<close>

datatype pyval =
    Sc scalar
  | VList "scalar list"
  | VDict "(string \<times> pyval) list"

abbreviation VStr :: "string \<Rightarrow> pyval" where "VStr s \<equiv> Sc (SStr s)"
abbreviation VNaN :: pyval where "VNaN \<equiv> Sc SNaN"
abbreviation VNaT :: pyval where "VNaT \<equiv> Sc SNaT"
abbreviation VNone :: pyval where "VNone \<equiv> Sc SNone"
abbreviation VTimestamp :: "timestamp \<Rightarrow> pyval" where "VTimestamp t \<equiv> Sc (STimestamp t)"

datatype error = ValueError | KeyError | MergeError | InvalidIndexError

subsection \<open>Dictionaries and rows\<close>

text \<open>
  A Python dict is an association list in insertion order; the binding of a key is its
  first pair. \<open>dict_set\<close> is \<open>d[k] = v\<close>: an existing key keeps its place, a new one goes
  to the end.
\<close>

type_synonym ('k, 'v) dict = "('k \<times> 'v) list"

definition dict_get :: "('k, 'v) dict \<Rightarrow> 'k \<Rightarrow> 'v \<Rightarrow> 'v" where
  "dict_get d k dflt = (case map_of d k of None \<Rightarrow> dflt | Some v \<Rightarrow> v)"

fun dict_set :: "('k, 'v) dict \<Rightarrow> 'k \<Rightarrow> 'v \<Rightarrow> ('k, 'v) dict" where
  "dict_set [] k v = [(k, v)]"
| "dict_set ((k', v') # d) k v =
     (if k' = k then (k, v) # d else (k', v') # dict_set d k v)"

definition dict_keys :: "('k, 'v) dict \<Rightarrow> 'k list" where
  "dict_keys d = remdups (map fst d)"

definition dict_values :: "('k, 'v) dict \<Rightarrow> 'v list" where
  "dict_values d = map (\<lambda>k. the (map_of d k)) (remdups (map fst d))"

text \<open>
  A row handed to \<open>build_json\<close> is a \<open>pd.Series\<close>: the cells of one record under the
  column labels, which may repeat. \<open>Series.get(key, default)\<close> gives the default when
  the label is absent, the cell when it occurs once, and otherwise the sub-Series of
  all the cells under the label.
\<close>

type_synonym row = "(string \<times> pyval) list"

datatype lookup = Cell pyval | SubSeries "pyval list"

definition series_get :: "row \<Rightarrow> string \<Rightarrow> pyval \<Rightarrow> lookup" where
  "series_get r k dflt =
     (case filter (\<lambda>kv. fst kv = k) r of
        [] \<Rightarrow> Cell dflt
      | [kv] \<Rightarrow> Cell (snd kv)
      | kvs \<Rightarrow> SubSeries (map snd kvs))"

subsection \<open>Text of a value\<close>

definition digit_char :: "nat \<Rightarrow> char" where
  "digit_char n = char_of (48 + n)"

fun nat_digits :: "nat \<Rightarrow> string" where
  "nat_digits n =
     (if n < 10 then [digit_char n] else nat_digits (n div 10) @ [digit_char (n mod 10)])"

declare nat_digits.simps [simp del]

definition zero_pad :: "nat \<Rightarrow> string \<Rightarrow> string" where
  "zero_pad w s = replicate (w - length s) (CHR ''0'') @ s"

text \<open>\<open>value.strftime('%Y-%m-%d')\<close> on a \<open>pd.Timestamp\<close>.\<close>

definition strftime_ymd :: "timestamp \<Rightarrow> string" where
  "strftime_ymd t =
     zero_pad 4 (nat_digits (ts_year t)) @ ''-'' @
     zero_pad 2 (nat_digits (ts_month t)) @ ''-'' @
     zero_pad 2 (nat_digits (ts_day t))"


definition int_text :: "int \<Rightarrow> string" where
  "int_text i = (if i < 0 then ''-'' @ nat_digits (nat (- i)) else nat_digits (nat i))"

text \<open>\<open>str\<close> of a \<open>pd.Timestamp\<close>: the date, and the time of day after a blank.\<close>

definition timestamp_text :: "timestamp \<Rightarrow> string" where
  "timestamp_text t =
     strftime_ymd t @ '' '' @
     zero_pad 2 (nat_digits (ts_hour t)) @ '':'' @
     zero_pad 2 (nat_digits (ts_minute t)) @ '':'' @
     zero_pad 2 (nat_digits (ts_second t))"

fun scalar_str :: "scalar \<Rightarrow> string" where
  "scalar_str (SStr s) = s"
| "scalar_str (SInt i) = int_text i"
| "scalar_str (SFloat r) = r"
| "scalar_str (SBool b) = (if b then ''True'' else ''False'')"
| "scalar_str SNone = ''None''"
| "scalar_str SNaN = ''nan''"
| "scalar_str SNaT = ''NaT''"
| "scalar_str (STimestamp t) = timestamp_text t"
| "scalar_str (SOther s) = s"

subsection \<open>Missing values\<close>

fun checknull :: "scalar \<Rightarrow> bool" where
  "checknull SNone = True"
| "checknull SNaN = True"
| "checknull SNaT = True"
| "checknull _ = False"

text \<open>
  \<open>pd.isna\<close> answers a scalar with one boolean, a list with the boolean array of its
  elements, and any other object (a dict) with \<open>False\<close>.
\<close>

datatype isna_result = IsnaBool bool | IsnaArray "bool list"

fun pd_isna :: "pyval \<Rightarrow> isna_result" where
  "pd_isna (Sc s) = IsnaBool (checknull s)"
| "pd_isna (VList xs) = IsnaArray (map checknull xs)"
| "pd_isna (VDict d) = IsnaBool False"

text \<open>
  The truth value that \<open>if pd.isna(value):\<close> asks for. An array of one element has the
  truth value of the element, an empty one is false (with a deprecation warning), and a
  longer one raises \<open>ValueError\<close>.
\<close>

fun truth_value :: "isna_result \<Rightarrow> error + bool" where
  "truth_value (IsnaBool b) = Inr b"
| "truth_value (IsnaArray []) = Inr False"
| "truth_value (IsnaArray [b]) = Inr b"
| "truth_value (IsnaArray (b # c # bs)) = Inl ValueError"

section \<open>The JSON document builder\<close>

text \<open>
  \<open>isinstance(value, (str, int, float, bool, list, dict, type(None)))\<close> on a scalar; NaN
  is a float. A list and a dict are instances, so only a scalar is ever handed to
  \<open>str\<close>.
\<close>

fun scalar_serializable :: "scalar \<Rightarrow> bool" where
  "scalar_serializable (SStr s) = True"
| "scalar_serializable (SInt i) = True"
| "scalar_serializable (SFloat r) = True"
| "scalar_serializable SNaN = True"
| "scalar_serializable (SBool b) = True"
| "scalar_serializable SNone = True"
| "scalar_serializable SNaT = False"
| "scalar_serializable (STimestamp t) = False"
| "scalar_serializable (SOther s) = False"

fun stringify_unserializable :: "pyval \<Rightarrow> pyval" where
  "stringify_unserializable (Sc s) =
     (if \<not> scalar_serializable s then VStr (scalar_str s) else Sc s)"
| "stringify_unserializable (VList xs) = VList xs"
| "stringify_unserializable (VDict d) = VDict d"

text \<open>The value looked up for a field: \<open>row.get(field, defaults.get(field, ""))\<close>.\<close>

definition resolve :: "row \<Rightarrow> (string, scalar) dict \<Rightarrow> string \<Rightarrow> lookup" where
  "resolve r defaults field = series_get r field (Sc (dict_get defaults field (SStr '''')))"

text \<open>
  The loop body of \<open>build_json\<close> on the value looked up: a \<open>pd.Timestamp\<close> is
  formatted, a missing value becomes the empty string, anything the serializer does not
  take becomes its text. A sub-Series is no Timestamp, \<open>pd.isna\<close> gives a boolean Series
  for it, and the truth value of a Series raises \<open>ValueError\<close>.
\<close>

definition format_timestamp :: "pyval \<Rightarrow> pyval" where
  "format_timestamp v = (case v of Sc (STimestamp t) \<Rightarrow> VStr (strftime_ymd t) | _ \<Rightarrow> v)"

fun json_value :: "lookup \<Rightarrow> error + pyval" where
  "json_value (SubSeries vs) = Inl ValueError"
| "json_value (Cell v0) =
     (let v1 = format_timestamp v0 in
      case truth_value (pd_isna v1) of
        Inl e \<Rightarrow> Inl e
      | Inr na \<Rightarrow> Inr (stringify_unserializable (if na then VStr '''' else v1)))"

fun build_json_loop ::
  "row \<Rightarrow> string list \<Rightarrow> (string, scalar) dict \<Rightarrow> (string, pyval) dict \<Rightarrow>
   error + (string, pyval) dict" where
  "build_json_loop r [] defaults structured_json = Inr structured_json"
| "build_json_loop r (field # fields) defaults structured_json =
     (case json_value (resolve r defaults field) of
        Inl e \<Rightarrow> Inl e
      | Inr v \<Rightarrow> build_json_loop r fields defaults (dict_set structured_json field v))"

definition build_json ::
  "row \<Rightarrow> string list \<Rightarrow> (string, scalar) dict \<Rightarrow> error + (string, pyval) dict" where
  "build_json r json_fields defaults = build_json_loop r json_fields defaults []"

text \<open>
  \<open>str(value)\<close>, as \<open>astype(str)\<close> applies it to a cell. The text of a list or of a dict
  is not computed by the model: it is whatever the parameter \<open>ctext\<close> gives.
\<close>

fun py_str :: "(pyval \<Rightarrow> string) \<Rightarrow> pyval \<Rightarrow> string" where
  "py_str ctext (Sc s) = scalar_str s"
| "py_str ctext (VList xs) = ctext (VList xs)"
| "py_str ctext (VDict d) = ctext (VDict d)"

section \<open>Data frames\<close>

text \<open>
  A \<open>pd.DataFrame\<close> is its column labels and its rows, each row with its index label and
  its cells under the column labels. A frame is rectangular: every row carries exactly
  the labels of the frame, in their order (\<open>aligned\<close>); the cell of a row under a label
  is then \<open>row_cell\<close>. The cells are the Python objects that a row-wise access
  yields; the \<open>dtype\<close> of a column is not modelled.
\<close>

record dataframe =
  columns :: "string list"
  rows :: "(nat \<times> row) list"

definition aligned :: "dataframe \<Rightarrow> bool" where
  "aligned df \<longleftrightarrow> list_all (\<lambda>ir. map fst (snd ir) = columns df) (rows df)"

definition row_cell :: "row \<Rightarrow> string \<Rightarrow> pyval" where
  "row_cell r c = (case map_of r c of Some v \<Rightarrow> v | None \<Rightarrow> VNaN)"

definition enumerate_rows :: "row list \<Rightarrow> (nat \<times> row) list" where
  "enumerate_rows rs = zip [0..<length rs] rs"

text \<open>\<open>df.reset_index(drop=True)\<close>: the rows keep their order and are labelled from 0.\<close>

definition reset_index :: "dataframe \<Rightarrow> dataframe" where
  "reset_index df = df\<lparr>rows := enumerate_rows (map snd (rows df))\<rparr>"

definition then_do :: "error + 'a \<Rightarrow> ('a \<Rightarrow> error + 'b) \<Rightarrow> error + 'b" where
  "then_do m f = (case m of Inl e \<Rightarrow> Inl e | Inr x \<Rightarrow> f x)"

subsection \<open>The join\<close>

text \<open>
  \<open>pd.merge(left, right, on=key, how='left')\<close>. The key must be a column of both frames
  (\<open>KeyError\<close>) and label one column only (\<open>ValueError\<close>). The key column of the right
  frame is dropped; a label that the two frames then share gets the suffix \<open>_x\<close> on the
  left and \<open>_y\<close> on the right, and a repetition that the suffixes create among the labels
  of one side is a \<open>MergeError\<close>. Every left row gives, in the order of the left frame, one
  row per right row with a matching key, or one row with NaN under the right columns
  when there is none; missing keys match one another. The result is labelled from 0.
\<close>

definition key_norm :: "pyval \<Rightarrow> pyval" where
  "key_norm v = (case v of Sc s \<Rightarrow> (if checknull s then VNaN else v) | _ \<Rightarrow> v)"

definition key_match :: "pyval \<Rightarrow> pyval \<Rightarrow> bool" where
  "key_match a b \<longleftrightarrow> key_norm a = key_norm b"

definition suffix_duplicates :: "string list \<Rightarrow> string list \<Rightarrow> bool" where
  "suffix_duplicates original renamed \<longleftrightarrow>
     list_ex (\<lambda>i. renamed ! i \<in> set (take i renamed) \<and> original ! i \<notin> set (take i original))
       [0..<length renamed]"

definition relabel :: "(string \<Rightarrow> string) \<Rightarrow> row \<Rightarrow> row" where
  "relabel f r = map (\<lambda>kv. (f (fst kv), snd kv)) r"

definition merge_row ::
  "string \<Rightarrow> (string \<Rightarrow> string) \<Rightarrow> (string \<Rightarrow> string) \<Rightarrow> string list \<Rightarrow>
   (nat \<times> row) list \<Rightarrow> row \<Rightarrow> row list" where
  "merge_row key lren rren rlabels right_rows lr =
     (let matches = filter (\<lambda>jr. key_match (row_cell (snd jr) key) (row_cell lr key)) right_rows
      in if matches = [] then [relabel lren lr @ map (\<lambda>c. (c, VNaN)) rlabels]
         else map (\<lambda>jr. relabel lren lr @
                    relabel rren (filter (\<lambda>kv. fst kv \<noteq> key) (snd jr))) matches)"

definition overlapping :: "string \<Rightarrow> dataframe \<Rightarrow> dataframe \<Rightarrow> string \<Rightarrow> bool" where
  "overlapping key left right c \<longleftrightarrow>
     c \<in> set (columns left) \<and> c \<in> set (columns right) \<and> c \<noteq> key"

definition suffix_x :: "string \<Rightarrow> dataframe \<Rightarrow> dataframe \<Rightarrow> string \<Rightarrow> string" where
  "suffix_x key left right c = (if overlapping key left right c then c @ ''_x'' else c)"

definition suffix_y :: "string \<Rightarrow> dataframe \<Rightarrow> dataframe \<Rightarrow> string \<Rightarrow> string" where
  "suffix_y key left right c = (if overlapping key left right c then c @ ''_y'' else c)"

definition right_labels :: "string \<Rightarrow> dataframe \<Rightarrow> dataframe \<Rightarrow> string list" where
  "right_labels key left right =
     map (suffix_y key left right) (filter (\<lambda>c. c \<noteq> key) (columns right))"

definition merged_rows :: "string \<Rightarrow> dataframe \<Rightarrow> dataframe \<Rightarrow> row list" where
  "merged_rows key left right =
     concat (map (\<lambda>ir. merge_row key (suffix_x key left right) (suffix_y key left right)
                         (right_labels key left right) (rows right) (snd ir)) (rows left))"

definition pd_merge_left :: "string \<Rightarrow> dataframe \<Rightarrow> dataframe \<Rightarrow> error + dataframe" where
  "pd_merge_left key left right =
     (if key \<notin> set (columns left) \<or> key \<notin> set (columns right) then Inl KeyError
      else if 1 < count_list (columns left) key \<or> 1 < count_list (columns right) key
        then Inl ValueError
      else if suffix_duplicates (columns left) (map (suffix_x key left right) (columns left)) \<or>
              suffix_duplicates (filter (\<lambda>c. c \<noteq> key) (columns right))
                (right_labels key left right)
        then Inl MergeError
      else Inr \<lparr>columns = map (suffix_x key left right) (columns left) @
                          right_labels key left right,
                rows = enumerate_rows (merged_rows key left right)\<rparr>)"

subsection \<open>The classifier\<close>

text \<open>
  \<open>df[df[c] == s]\<close>. An absent label is a \<open>KeyError\<close>. When the label names one column
  the comparison is a mask over the rows, and the rows whose cell is the string \<open>s\<close> are
  kept, with their index labels. When it names several, the comparison is a frame, and
  indexing by it is \<open>df.where\<close>: every row is kept and every cell that is not under the
  label and equal to \<open>s\<close> becomes NaN.
\<close>

definition select_eq :: "string \<Rightarrow> string \<Rightarrow> dataframe \<Rightarrow> error + dataframe" where
  "select_eq c s df =
     (if c \<notin> set (columns df) then Inl KeyError
      else if count_list (columns df) c = 1
        then Inr (df\<lparr>rows := filter (\<lambda>ir. row_cell (snd ir) c = VStr s) (rows df)\<rparr>)
      else Inr (df\<lparr>rows :=
             map (\<lambda>ir. (fst ir, map (\<lambda>kv. (fst kv,
                    if fst kv = c \<and> snd kv = VStr s then snd kv else VNaN)) (snd ir)))
               (rows df)\<rparr>))"

text \<open>Lines 139 to 141 of the profile transformation: the two partitions.\<close>

definition classify :: "dataframe \<Rightarrow> error + dataframe \<times> dataframe" where
  "classify df =
     then_do (select_eq ''customer_type'' ''Individual'' df) (\<lambda>df_ind.
     then_do (select_eq ''customer_type'' ''SME'' df) (\<lambda>df_corp.
     Inr (df_ind, df_corp)))"

subsection \<open>The field projector\<close>

text \<open>\<open>df.rename(columns=m)\<close>: a label that is a key of \<open>m\<close> becomes its value.\<close>

definition rename_columns :: "(string, string) dict \<Rightarrow> dataframe \<Rightarrow> dataframe" where
  "rename_columns m df =
     df\<lparr>columns := map (\<lambda>c. dict_get m c c) (columns df),
        rows := map (\<lambda>ir. (fst ir, relabel (\<lambda>c. dict_get m c c) (snd ir))) (rows df)\<rparr>"

text \<open>
  \<open>set(m.values()).union(set(defaults.keys()))\<close>, listed. Python leaves the order in
  which a set is listed open; the model lists the values before the keys.
\<close>

definition required_columns :: "(string, string) dict \<Rightarrow> (string, scalar) dict \<Rightarrow> string list" where
  "required_columns m defaults = remdups (dict_values m @ dict_keys defaults)"

text \<open>
  \<open>df[column] = value\<close> for a scalar: the cells under the label are overwritten, or a
  column is added at the end.
\<close>

definition set_cell :: "string \<Rightarrow> pyval \<Rightarrow> row \<Rightarrow> row" where
  "set_cell c v r =
     (if c \<in> fst ` set r then map (\<lambda>kv. (fst kv, if fst kv = c then v else snd kv)) r
      else r @ [(c, v)])"

definition add_label :: "string \<Rightarrow> string list \<Rightarrow> string list" where
  "add_label c cols = (if c \<in> set cols then cols else cols @ [c])"

definition assign_scalar :: "string \<Rightarrow> pyval \<Rightarrow> dataframe \<Rightarrow> dataframe" where
  "assign_scalar c v df =
     df\<lparr>columns := add_label c (columns df),
        rows := map (\<lambda>ir. (fst ir, set_cell c v (snd ir))) (rows df)\<rparr>"

fun ensure_columns :: "string list \<Rightarrow> (string, scalar) dict \<Rightarrow> dataframe \<Rightarrow> dataframe" where
  "ensure_columns [] defaults df = df"
| "ensure_columns (column # cs) defaults df =
     ensure_columns cs defaults
       (if column \<notin> set (columns df)
        then assign_scalar column (Sc (dict_get defaults column (SStr ''''))) df
        else df)"

text \<open>
  \<open>df[list(cols)]\<close>: for each listed label in turn, every column under it; a label that
  is no column is a \<open>KeyError\<close>.
\<close>

definition select_columns :: "string list \<Rightarrow> dataframe \<Rightarrow> error + dataframe" where
  "select_columns cols df =
     (if list_ex (\<lambda>c. c \<notin> set (columns df)) cols then Inl KeyError
      else Inr (df\<lparr>columns := concat (map (\<lambda>c. filter (\<lambda>k. k = c) (columns df)) cols),
                  rows := map (\<lambda>ir. (fst ir,
                     concat (map (\<lambda>c. filter (\<lambda>kv. fst kv = c) (snd ir)) cols))) (rows df)\<rparr>))"

text \<open>Rename, fill and restrict: lines 144 to 162 (90 to 103 in the customer table).\<close>

definition project ::
  "(string, string) dict \<Rightarrow> (string, scalar) dict \<Rightarrow> dataframe \<Rightarrow> error + dataframe" where
  "project m defaults df =
     (let all_columns = required_columns m defaults
      in select_columns all_columns (ensure_columns all_columns defaults (rename_columns m df)))"

subsection \<open>The document column\<close>

text \<open>
  \<open>df["customerProfileData"] = df.apply(lambda x: build_json(x, json_fields, defaults), axis=1)\<close>:
  the document of every row, in the order of the rows, stored under the label.
\<close>

fun add_profile_rows ::
  "string list \<Rightarrow> (string, scalar) dict \<Rightarrow> (nat \<times> row) list \<Rightarrow> error + (nat \<times> row) list" where
  "add_profile_rows json_fields defaults [] = Inr []"
| "add_profile_rows json_fields defaults (ir # irs) =
     then_do (build_json (snd ir) json_fields defaults) (\<lambda>doc.
     then_do (add_profile_rows json_fields defaults irs) (\<lambda>rest.
     Inr ((fst ir, set_cell ''customerProfileData'' (VDict doc) (snd ir)) # rest)))"

definition add_profile ::
  "string list \<Rightarrow> (string, scalar) dict \<Rightarrow> dataframe \<Rightarrow> error + dataframe" where
  "add_profile json_fields defaults df =
     then_do (add_profile_rows json_fields defaults (rows df)) (\<lambda>rs.
     Inr (df\<lparr>columns := add_label ''customerProfileData'' (columns df), rows := rs\<rparr>))"

subsection \<open>The consolidator\<close>

text \<open>
  \<open>pd.concat([a, b], ignore_index=True)\<close>. With the same labels on both sides the rows of
  \<open>a\<close> are followed by those of \<open>b\<close>. Otherwise the columns are those of \<open>a\<close> and then the
  further ones of \<open>b\<close>, every row is re-indexed to them with NaN under a label it lacks,
  and a frame with a repeated label cannot be re-indexed (\<open>InvalidIndexError\<close>). The
  result is labelled from 0.
\<close>

definition reindex_row :: "string list \<Rightarrow> row \<Rightarrow> row" where
  "reindex_row cols r = map (\<lambda>c. (c, row_cell r c)) cols"

definition pd_concat :: "dataframe \<Rightarrow> dataframe \<Rightarrow> error + dataframe" where
  "pd_concat a b =
     (if columns a = columns b
        then Inr \<lparr>columns = columns a,
                  rows = enumerate_rows (map snd (rows a) @ map snd (rows b))\<rparr>
      else if \<not> distinct (columns a) \<or> \<not> distinct (columns b) then Inl InvalidIndexError
      else
        (let cols = columns a @ filter (\<lambda>c. c \<notin> set (columns a)) (columns b)
         in Inr \<lparr>columns = cols,
                 rows = enumerate_rows
                   (map (\<lambda>ir. reindex_row cols (snd ir)) (rows a) @
                    map (\<lambda>ir. reindex_row cols (snd ir)) (rows b))\<rparr>))"

subsection \<open>The type normalizer\<close>

text \<open>
  \<open>pd.to_datetime(column, errors='coerce')\<close>. What pandas can read as a point in time is
  not modelled: the parameter \<open>parse\<close> says, for a cell and the column it stands in (the
  format is inferred from the column), which timestamp it is read as, if any. With
  \<open>errors='coerce'\<close> a cell that is not read becomes NaT.
\<close>

definition to_datetime_coerce ::
  "(pyval list \<Rightarrow> pyval \<Rightarrow> timestamp option) \<Rightarrow> pyval list \<Rightarrow> pyval \<Rightarrow> pyval" where
  "to_datetime_coerce parse col v =
     (case parse col v of Some t \<Rightarrow> VTimestamp t | None \<Rightarrow> VNaT)"

definition column_cells :: "string \<Rightarrow> dataframe \<Rightarrow> pyval list" where
  "column_cells c df = map (\<lambda>ir. row_cell (snd ir) c) (rows df)"

definition map_column :: "string \<Rightarrow> (pyval \<Rightarrow> pyval) \<Rightarrow> dataframe \<Rightarrow> dataframe" where
  "map_column c f df =
     df\<lparr>rows := map (\<lambda>ir. (fst ir,
            map (\<lambda>kv. (fst kv, if fst kv = c then f (snd kv) else snd kv)) (snd ir))) (rows df)\<rparr>"

text \<open>
  The loop over \<open>datetime_columns\<close>: a label that is no column is skipped; one that
  names several columns hands a frame to \<open>pd.to_datetime\<close>, which raises \<open>ValueError\<close>
  (it cannot assemble a date from columns of one name).
\<close>

fun convert_datetime_columns ::
  "(pyval list \<Rightarrow> pyval \<Rightarrow> timestamp option) \<Rightarrow> string list \<Rightarrow> dataframe \<Rightarrow>
   error + dataframe" where
  "convert_datetime_columns parse [] df = Inr df"
| "convert_datetime_columns parse (col # cols) df =
     (if col \<in> set (columns df)
      then (if 1 < count_list (columns df) col then Inl ValueError
            else convert_datetime_columns parse cols
                   (map_column col (to_datetime_coerce parse (column_cells col df)) df))
      else convert_datetime_columns parse cols df)"

text \<open>The loop over \<open>int_to_str_columns\<close>: \<open>astype(str)\<close> on every column under the label.\<close>

definition astype_str :: "(pyval \<Rightarrow> string) \<Rightarrow> pyval \<Rightarrow> pyval" where
  "astype_str ctext v = VStr (py_str ctext v)"

fun convert_str_columns :: "(pyval \<Rightarrow> string) \<Rightarrow> string list \<Rightarrow> dataframe \<Rightarrow> dataframe" where
  "convert_str_columns ctext [] df = df"
| "convert_str_columns ctext (col # cols) df =
     convert_str_columns ctext cols
       (if col \<in> set (columns df) then map_column col (astype_str ctext) df else df)"

text \<open>Lines 169 to 186: concatenation, type normalization, fresh index.\<close>

definition consolidate ::
  "(pyval list \<Rightarrow> pyval \<Rightarrow> timestamp option) \<Rightarrow> (pyval \<Rightarrow> string) \<Rightarrow>
   dataframe \<Rightarrow> dataframe \<Rightarrow> error + dataframe" where
  "consolidate parse ctext df_ind df_corp =
     then_do (pd_concat df_ind df_corp) (\<lambda>df_final.
     then_do (convert_datetime_columns parse [''createdAt'', ''updatedAt''] df_final) (\<lambda>df_final.
     Inr (reset_index (convert_str_columns ctext [''customerNumber'', ''bvn''] df_final))))"

section \<open>The two transformations\<close>

text \<open>
  \<open>transform_data\<close> of the customer profile table. The mapping tables that the module
  loads once (\<open>ind_map\<close>, \<open>corp_map\<close>, the defaults and the JSON field lists) are
  arguments here.
\<close>

definition transform_data ::
  "(pyval list \<Rightarrow> pyval \<Rightarrow> timestamp option) \<Rightarrow> (pyval \<Rightarrow> string) \<Rightarrow>
   (string, string) dict \<Rightarrow> (string, string) dict \<Rightarrow>
   (string, scalar) dict \<Rightarrow> (string, scalar) dict \<Rightarrow> string list \<Rightarrow> string list \<Rightarrow>
   dataframe \<Rightarrow> dataframe \<Rightarrow> error + dataframe" where
  "transform_data parse ctext ind_map corp_map ind_defaults corp_defaults
     json_ind_fields json_corp_fields stg_customers_df customer_uuids_df =
     then_do (pd_merge_left ''customer_code'' stg_customers_df customer_uuids_df) (\<lambda>df.
     then_do (classify df) (\<lambda>(df_ind, df_corp).
     then_do (project ind_map ind_defaults df_ind) (\<lambda>df_ind.
     then_do (project corp_map corp_defaults df_corp) (\<lambda>df_corp.
     then_do (add_profile json_ind_fields ind_defaults df_ind) (\<lambda>df_ind.
     then_do (add_profile json_corp_fields corp_defaults df_corp) (\<lambda>df_corp.
     consolidate parse ctext df_ind df_corp))))))"

text \<open>\<open>transform_data\<close> of the customer table: one mapping for every record.\<close>

definition transform_data_customer ::
  "(pyval list \<Rightarrow> pyval \<Rightarrow> timestamp option) \<Rightarrow>
   (string, string) dict \<Rightarrow> (string, scalar) dict \<Rightarrow>
   dataframe \<Rightarrow> dataframe \<Rightarrow> error + dataframe" where
  "transform_data_customer parse field_map default_values stg_customers_df customer_uuids_df =
     then_do (pd_merge_left ''customer_code'' stg_customers_df customer_uuids_df) (\<lambda>df_all.
     then_do (project field_map default_values df_all) (\<lambda>df_all.
     then_do (convert_datetime_columns parse [''createdAt'', ''updatedAt''] df_all) (\<lambda>df_all.
     Inr (reset_index df_all))))"

section \<open>Predicates of the specification\<close>



text \<open>
  The labels that the loop of \<open>ensure_columns\<close> adds to a frame with the columns \<open>cols\<close>,
  in the order in which it adds them.
\<close>

fun missing_columns :: "string list \<Rightarrow> string list \<Rightarrow> string list" where
  "missing_columns [] cols = []"
| "missing_columns (c # cs) cols =
     (if c \<in> set cols then missing_columns cs cols else c # missing_columns cs (cols @ [c]))"

section \<open>Dictionaries\<close>


lemma dict_set_fresh: "k \<notin> fst ` set d \<Longrightarrow> dict_set d k v = d @ [(k, v)]"
  by (induction d) auto

lemma map_of_dict_set: "map_of (dict_set d k v) = (map_of d)(k \<mapsto> v)"
  by (induction d) auto

section \<open>Dates as text\<close>












section \<open>The loop of the document builder\<close>


lemma json_value_null: "checknull s \<Longrightarrow> json_value (Cell (Sc s)) = Inr (VStr '''')"
  by (cases s) (simp_all add: format_timestamp_def)


lemma build_json_loop_step:
  assumes "build_json_loop r (g # fs) defaults acc = Inr doc"
  obtains v where "json_value (resolve r defaults g) = Inr v"
    and "build_json_loop r fs defaults (dict_set acc g v) = Inr doc"
  using assms by (auto split: sum.splits)

lemma loop_lookup_out:
  "build_json_loop r fs defaults acc = Inr doc \<Longrightarrow> f \<notin> set fs \<Longrightarrow>
   map_of doc f = map_of acc f"
proof (induction fs arbitrary: acc)
  case Nil
  then show ?case by simp
next
  case (Cons g fs)
  from Cons.prems(1) obtain v
    where rest: "build_json_loop r fs defaults (dict_set acc g v) = Inr doc"
    by (rule build_json_loop_step)
  have "map_of doc f = map_of (dict_set acc g v) f"
    using Cons.IH[OF rest] Cons.prems(2) by simp
  then show ?case using Cons.prems(2) by (simp add: map_of_dict_set)
qed

lemma loop_lookup_in:
  "build_json_loop r fs defaults acc = Inr doc \<Longrightarrow> f \<in> set fs \<Longrightarrow>
   \<exists>v. json_value (resolve r defaults f) = Inr v \<and> map_of doc f = Some v"
proof (induction fs arbitrary: acc)
  case Nil
  then show ?case by simp
next
  case (Cons g fs)
  from Cons.prems(1) obtain v where v: "json_value (resolve r defaults g) = Inr v"
    and rest: "build_json_loop r fs defaults (dict_set acc g v) = Inr doc"
    by (rule build_json_loop_step)
  show ?case
  proof (cases "f \<in> set fs")
    case True
    then show ?thesis using Cons.IH[OF rest] by simp
  next
    case False
    then have "f = g" using Cons.prems(2) by simp
    moreover have "map_of doc f = map_of (dict_set acc g v) f"
      using loop_lookup_out[OF rest False] .
    ultimately show ?thesis using v by (simp add: map_of_dict_set)
  qed
qed



lemma loop_appends:
  "build_json_loop r fs defaults acc = Inr doc \<Longrightarrow> distinct fs \<Longrightarrow>
   set fs \<inter> fst ` set acc = {} \<Longrightarrow>
   map fst doc = map fst acc @ fs \<and>
   map (Inr \<circ> snd) doc =
     map (Inr \<circ> snd) acc @ map (\<lambda>f. json_value (resolve r defaults f)) fs"
proof (induction fs arbitrary: acc)
  case Nil
  then show ?case by simp
next
  case (Cons g fs)
  from Cons.prems(1) obtain v where v: "json_value (resolve r defaults g) = Inr v"
    and rest: "build_json_loop r fs defaults (dict_set acc g v) = Inr doc"
    by (rule build_json_loop_step)
  have fresh: "dict_set acc g v = acc @ [(g, v)]"
    using Cons.prems(3) by (simp add: dict_set_fresh)
  have disj: "set fs \<inter> fst ` set (dict_set acc g v) = {}"
    using Cons.prems(2,3) by (auto simp: fresh)
  have d: "distinct fs" using Cons.prems(2) by simp
  show ?case using Cons.IH[OF rest d disj] v by (simp add: fresh)
qed

lemma resolve_absent:
  "f \<notin> fst ` set r \<Longrightarrow> map_of defaults f = None \<Longrightarrow> resolve r defaults f = Cell (VStr '''')"
proof -
  assume a: "f \<notin> fst ` set r" and n: "map_of defaults f = None"
  have "filter (\<lambda>kv. fst kv = f) r = []"
    using a by (auto simp: filter_empty_conv)
  then show ?thesis using n by (simp add: resolve_def series_get_def dict_get_def)
qed

section \<open>Claims about the JSON document\<close>

text \<open>
  C2, as stated, at a field list that names a field twice: the list has two entries and
  the document one key, since the second assignment to \<open>structured_json[field]\<close>
  overwrites the first.
\<close>

theorem build_json_repeated_field:
  "build_json [] [''status'', ''status''] [] = Inr [(''status'', VStr '''')] \<and>
   length [(''status'', VStr '''')] < length [''status'', ''status'']"
  by code_simp

text \<open>
  C2, amended: for a field list without repetition, a document that \<open>build_json\<close> returns
  has exactly the listed fields as keys, as many as the list is long and in the order of
  the list, whatever the order of the record; the value under each is the normalised
  value looked up for the field, and it is the empty string for a field that neither the
  record nor the defaults provide.
\<close>

theorem build_json_keys_in_order:
  assumes "build_json r json_fields defaults = Inr doc"
    and "distinct json_fields"
  shows "map fst doc = json_fields \<and> length doc = length json_fields \<and>
    map (Inr \<circ> snd) doc = map (\<lambda>f. json_value (resolve r defaults f)) json_fields \<and>
    (\<forall>f. f \<in> set json_fields \<and> f \<notin> fst ` set r \<and> map_of defaults f = None \<longrightarrow>
       map_of doc f = Some (VStr ''''))"
proof -
  have loop: "build_json_loop r json_fields defaults [] = Inr doc"
    using assms(1) by (simp add: build_json_def)
  have keys: "map fst doc = json_fields"
    and vals: "map (Inr \<circ> snd) doc = map (\<lambda>f. json_value (resolve r defaults f)) json_fields"
    using loop_appends[OF loop assms(2)] by simp_all
  have len: "length doc = length json_fields"
    using keys by (metis length_map)
  have absent: "map_of doc f = Some (VStr '''')"
    if listed: "f \<in> set json_fields" and nokey: "f \<notin> fst ` set r"
      and nodefault: "map_of defaults f = None" for f
  proof -
    obtain v where "json_value (resolve r defaults f) = Inr v" "map_of doc f = Some v"
      using loop_lookup_in[OF loop listed] by blast
    then show ?thesis
      using resolve_absent[OF nokey nodefault] by (simp add: format_timestamp_def)
  qed
  show ?thesis using keys vals len absent by blast
qed

theorem build_json_keys_in_order_witness:
  "build_json [(''customerName'', VStr ''Acme'')] [''status'', ''customerName'', ''segment'']
     [(''customerName'', SStr ''Unknown''), (''status'', SStr ''ACTIVE'')]
   = Inr [(''status'', VStr ''ACTIVE''), (''customerName'', VStr ''Acme''), (''segment'', VStr '''')] \<and>
   map fst [(''status'', VStr ''ACTIVE''), (''customerName'', VStr ''Acme''), (''segment'', VStr '''')]
   = [''status'', ''customerName'', ''segment''] \<and>
   map_of [(''status'', VStr ''ACTIVE''), (''customerName'', VStr ''Acme''), (''segment'', VStr '''')]
     ''segment'' = Some (VStr '''')"
proof -
  have run: "build_json [(''customerName'', VStr ''Acme'')] [''status'', ''customerName'', ''segment'']
     [(''customerName'', SStr ''Unknown''), (''status'', SStr ''ACTIVE'')]
   = Inr [(''status'', VStr ''ACTIVE''), (''customerName'', VStr ''Acme''), (''segment'', VStr '''')]"
    by code_simp
  have d: "distinct [''status'', ''customerName'', ''segment'']" by simp
  show ?thesis using build_json_keys_in_order[OF run d] run by simp
qed

text \<open>
  C3, at a record whose cell is a list of two elements: \<open>pd.isna\<close> answers with an array
  of two booleans, whose truth value is ambiguous, and \<open>build_json\<close> raises
  \<open>ValueError\<close> instead of returning a document.
\<close>

theorem build_json_raises_on_list:
  "build_json [(''tags'', VList [SStr ''a'', SStr ''b''])] [''tags''] [] = Inl ValueError"
  by code_simp



text \<open>
  C8: a listed field that the record carries once, with a null marker as its value,
  holds the empty string in the document, whatever default the mapping declares for it:
  the default is the second argument of \<open>row.get\<close> and is used only for an absent key.
\<close>

theorem build_json_null_ignores_default:
  assumes "build_json r json_fields defaults = Inr doc"
    and "f \<in> set json_fields"
    and "filter (\<lambda>kv. fst kv = f) r = [(f, Sc s)]"
    and "checknull s"
  shows "resolve r defaults f = Cell (Sc s) \<and> map_of doc f = Some (VStr '''')"
proof -
  have loop: "build_json_loop r json_fields defaults [] = Inr doc"
    using assms(1) by (simp add: build_json_def)
  have res: "resolve r defaults f = Cell (Sc s)"
    using assms(3) by (simp add: resolve_def series_get_def)
  then show ?thesis
    using loop_lookup_in[OF loop assms(2)] json_value_null[OF assms(4)]
    by (auto simp del: json_value.simps)
qed

theorem build_json_null_ignores_default_witness:
  "build_json [(''customerName'', VNaN)] [''customerName'']
     [(''customerName'', SStr ''Unknown'')] = Inr [(''customerName'', VStr '''')] \<and>
   resolve [(''customerName'', VNaN)] [(''customerName'', SStr ''Unknown'')] ''customerName''
     = Cell VNaN \<and>
   map_of [(''customerName'', VStr '''')] ''customerName'' = Some (VStr '''')"
proof -
  have run: "build_json [(''customerName'', VNaN)] [''customerName'']
     [(''customerName'', SStr ''Unknown'')] = Inr [(''customerName'', VStr '''')]"
    by code_simp
  have f: "''customerName'' \<in> set [''customerName'']" by simp
  have p: "filter (\<lambda>kv. fst kv = ''customerName'') [(''customerName'', VNaN)]
     = [(''customerName'', VNaN)]"
    by simp
  have n: "checknull SNaN" by simp
  show ?thesis using build_json_null_ignores_default[OF run f p n] run by simp
qed

section \<open>Claims about the classifier\<close>

lemma then_do_Inr:
  "then_do m f = Inr y \<longleftrightarrow> (\<exists>x. m = Inr x \<and> f x = Inr y)"
  by (cases m) (simp_all add: then_do_def)

lemma select_eq_once:
  assumes "count_list (columns df) c = 1"
  shows "select_eq c s df = Inr (df\<lparr>rows := filter (\<lambda>ir. row_cell (snd ir) c = VStr s) (rows df)\<rparr>)"
proof -
  have "c \<in> set (columns df)"
    using assms by (metis count_list_0_iff zero_neq_one)
  then show ?thesis using assms by (simp add: select_eq_def)
qed

lemma length_filter_disjoint:
  "(\<And>x. \<not> (P x \<and> Q x)) \<Longrightarrow> length (filter P xs) + length (filter Q xs) \<le> length xs"
  by (induction xs) auto

text \<open>
  C4: when \<open>customer_type\<close> labels one column of the joined frame, the Individual
  partition is the rows whose discriminator is the string \<open>Individual\<close> and the
  Corporate partition those whose discriminator is \<open>SME\<close>, both in the order of the
  input; so a row of the first kind is in the Individual partition only, one of the
  second kind in the Corporate partition only, any other row in neither, and the two
  partitions together have at most as many rows as the input.
\<close>

theorem classify_partitions:
  assumes "classify df = Inr (df_ind, df_corp)"
    and "count_list (columns df) ''customer_type'' = 1"
  shows "rows df_ind =
           filter (\<lambda>ir. row_cell (snd ir) ''customer_type'' = VStr ''Individual'') (rows df) \<and>
         rows df_corp =
           filter (\<lambda>ir. row_cell (snd ir) ''customer_type'' = VStr ''SME'') (rows df) \<and>
         (\<forall>ir. ir \<in> set (rows df) \<and> row_cell (snd ir) ''customer_type'' = VStr ''Individual''
            \<longrightarrow> ir \<in> set (rows df_ind) \<and> ir \<notin> set (rows df_corp)) \<and>
         (\<forall>ir. ir \<in> set (rows df) \<and> row_cell (snd ir) ''customer_type'' = VStr ''SME''
            \<longrightarrow> ir \<in> set (rows df_corp) \<and> ir \<notin> set (rows df_ind)) \<and>
         (\<forall>ir. row_cell (snd ir) ''customer_type'' \<noteq> VStr ''Individual'' \<and>
               row_cell (snd ir) ''customer_type'' \<noteq> VStr ''SME''
            \<longrightarrow> ir \<notin> set (rows df_ind) \<and> ir \<notin> set (rows df_corp)) \<and>
         length (rows df_ind) + length (rows df_corp) \<le> length (rows df)"
proof -
  from assms(1) have
    i: "select_eq ''customer_type'' ''Individual'' df = Inr df_ind" and
    c: "select_eq ''customer_type'' ''SME'' df = Inr df_corp"
    by (auto simp: classify_def then_do_Inr)
  have ri: "rows df_ind =
      filter (\<lambda>ir. row_cell (snd ir) ''customer_type'' = VStr ''Individual'') (rows df)"
    using i select_eq_once[OF assms(2), of "''Individual''"] by auto
  have rc: "rows df_corp =
      filter (\<lambda>ir. row_cell (snd ir) ''customer_type'' = VStr ''SME'') (rows df)"
    using c select_eq_once[OF assms(2), of "''SME''"] by auto
  have len: "length (rows df_ind) + length (rows df_corp) \<le> length (rows df)"
    unfolding ri rc by (rule length_filter_disjoint) auto
  show ?thesis
    using len by (auto simp: ri rc)
qed

theorem classify_partitions_witness:
  "classify \<lparr>columns = [''customer_code'', ''customer_type''],
      rows = [(0, [(''customer_code'', VStr ''C1''), (''customer_type'', VStr ''SME'')]),
              (1, [(''customer_code'', VStr ''C2''), (''customer_type'', VStr ''Individual'')]),
              (2, [(''customer_code'', VStr ''C3''), (''customer_type'', VStr ''Corporate'')])]\<rparr>
   = Inr (\<lparr>columns = [''customer_code'', ''customer_type''],
            rows = [(1, [(''customer_code'', VStr ''C2''), (''customer_type'', VStr ''Individual'')])]\<rparr>,
          \<lparr>columns = [''customer_code'', ''customer_type''],
            rows = [(0, [(''customer_code'', VStr ''C1''), (''customer_type'', VStr ''SME'')])]\<rparr>) \<and>
   length [(1::nat, [(''customer_code'', VStr ''C2''), (''customer_type'', VStr ''Individual'')])] +
   length [(0::nat, [(''customer_code'', VStr ''C1''), (''customer_type'', VStr ''SME'')])] \<le> (3::nat)"
proof -
  define df where "df = \<lparr>columns = [''customer_code'', ''customer_type''],
      rows = [(0, [(''customer_code'', VStr ''C1''), (''customer_type'', VStr ''SME'')]),
              (1, [(''customer_code'', VStr ''C2''), (''customer_type'', VStr ''Individual'')]),
              (2, [(''customer_code'', VStr ''C3''), (''customer_type'', VStr ''Corporate'')])]\<rparr>"
  define df_ind where "df_ind = \<lparr>columns = [''customer_code'', ''customer_type''],
      rows = [(1::nat, [(''customer_code'', VStr ''C2''), (''customer_type'', VStr ''Individual'')])]\<rparr>"
  define df_corp where "df_corp = \<lparr>columns = [''customer_code'', ''customer_type''],
      rows = [(0::nat, [(''customer_code'', VStr ''C1''), (''customer_type'', VStr ''SME'')])]\<rparr>"
  have run: "classify df = Inr (df_ind, df_corp)"
    unfolding df_def df_ind_def df_corp_def by code_simp
  have once: "count_list (columns df) ''customer_type'' = 1"
    unfolding df_def by simp
  have "length (rows df_ind) + length (rows df_corp) \<le> length (rows df)"
    using classify_partitions[OF run once] by blast
  then show ?thesis
    using run unfolding df_def df_ind_def df_corp_def by simp
qed

section \<open>Claims about the type normalizer\<close>

lemma columns_map_column [simp]: "columns (map_column c f df) = columns df"
  by (simp add: map_column_def)

lemma aligned_map_column: "aligned df \<Longrightarrow> aligned (map_column c f df)"
  by (auto simp: aligned_def map_column_def list_all_iff comp_def)

lemma row_cell_map_same:
  "c \<in> fst ` set r \<Longrightarrow>
   row_cell (map (\<lambda>kv. (fst kv, if fst kv = c then f (snd kv) else snd kv)) r) c = f (row_cell r c)"
  by (induction r) (auto simp: row_cell_def)

lemma row_cell_map_other:
  "c' \<noteq> c \<Longrightarrow>
   row_cell (map (\<lambda>kv. (fst kv, if fst kv = c then f (snd kv) else snd kv)) r) c' = row_cell r c'"
  by (induction r) (auto simp: row_cell_def)

lemma aligned_label: "aligned df \<Longrightarrow> ir \<in> set (rows df) \<Longrightarrow> fst ` set (snd ir) = set (columns df)"
  by (metis (mono_tags, lifting) aligned_def list_all_iff set_map)

lemma column_cells_map_same:
  assumes "aligned df" and "c \<in> set (columns df)"
  shows "column_cells c (map_column c f df) = map f (column_cells c df)"
  using aligned_label[OF assms(1)] assms(2)
  by (simp add: column_cells_def map_column_def comp_def row_cell_map_same)

lemma column_cells_map_other:
  "c' \<noteq> c \<Longrightarrow> column_cells c' (map_column c f df) = column_cells c' df"
  by (simp add: column_cells_def map_column_def comp_def row_cell_map_other)

lemma index_map_column [simp]: "map fst (rows (map_column c f df)) = map fst (rows df)"
  by (simp add: map_column_def comp_def)

text \<open>
  C9, as stated, at a record whose \<open>bvn\<close> is \<open>None\<close> (what a NULL of a text column is
  read as): \<open>astype(str)\<close> gives the text \<open>None\<close>, not the text \<open>nan\<close>.
\<close>

theorem astype_str_of_none:
  "convert_str_columns (\<lambda>v. ''[]'') [''customerNumber'', ''bvn'']
     \<lparr>columns = [''bvn''], rows = [(0, [(''bvn'', VNone)])]\<rparr>
   = \<lparr>columns = [''bvn''], rows = [(0, [(''bvn'', VStr ''None'')])]\<rparr> \<and>
   ''None'' \<noteq> ''nan''"
  by code_simp

text \<open>
  C9, amended: the conversion of \<open>customerNumber\<close> and \<open>bvn\<close> replaces every cell of
  those columns by the text that \<open>str\<close> gives for it, so that no cell of them is a null
  marker afterwards; the text of NaN is \<open>nan\<close>, that of \<open>None\<close> is \<open>None\<close> and that of NaT
  is \<open>NaT\<close>.
\<close>

theorem convert_str_columns_text:
  assumes "aligned df"
    and "col \<in> set [''customerNumber'', ''bvn'']"
    and "col \<in> set (columns df)"
  shows "column_cells col (convert_str_columns ctext [''customerNumber'', ''bvn''] df)
           = map (\<lambda>v. VStr (py_str ctext v)) (column_cells col df) \<and>
         list_all (\<lambda>v. \<not> (case v of Sc s \<Rightarrow> checknull s | _ \<Rightarrow> False))
           (column_cells col (convert_str_columns ctext [''customerNumber'', ''bvn''] df)) \<and>
         astype_str ctext VNaN = VStr ''nan'' \<and>
         astype_str ctext VNone = VStr ''None'' \<and>
         astype_str ctext VNaT = VStr ''NaT''"
proof -
  let ?f = "astype_str ctext"
  have cells: "column_cells col (convert_str_columns ctext [''customerNumber'', ''bvn''] df)
      = map ?f (column_cells col df)"
  proof (cases "col = ''customerNumber''")
    case True
    then show ?thesis
      using assms(1,3)
      by (simp add: column_cells_map_same column_cells_map_other)
  next
    case False
    then have b: "col = ''bvn''" using assms(2) by simp
    show ?thesis
    proof (cases "''customerNumber'' \<in> set (columns df)")
      case True
      then show ?thesis
        using assms(1,3) b
        by (simp add: column_cells_map_same column_cells_map_other aligned_map_column)
    next
      case False
      then show ?thesis
        using assms(1,3) b by (simp add: column_cells_map_same)
    qed
  qed
  have strs: "list_all (\<lambda>v. \<not> (case v of Sc s \<Rightarrow> checknull s | _ \<Rightarrow> False))
      (map ?f (column_cells col df))"
    by (simp add: list_all_iff astype_str_def)
  show ?thesis
    using cells strs by (simp add: astype_str_def)
qed

theorem convert_str_columns_text_witness:
  "column_cells ''bvn'' (convert_str_columns (\<lambda>v. ''[]'') [''customerNumber'', ''bvn'']
     \<lparr>columns = [''bvn''], rows = [(0, [(''bvn'', VNaN)]), (1, [(''bvn'', Sc (SInt 22))])]\<rparr>)
   = [VStr ''nan'', VStr ''22'']"
proof -
  define df where
    "df = \<lparr>columns = [''bvn''], rows = [(0::nat, [(''bvn'', VNaN)]), (1, [(''bvn'', Sc (SInt 22))])]\<rparr>"
  have a: "aligned df" unfolding df_def by (simp add: aligned_def)
  have m: "''bvn'' \<in> set [''customerNumber'', ''bvn'']" by simp
  have c: "''bvn'' \<in> set (columns df)" unfolding df_def by simp
  have cells: "column_cells ''bvn'' df = [VNaN, Sc (SInt 22)]"
    unfolding df_def by code_simp
  have t: "py_str (\<lambda>v. ''[]'') (Sc (SInt 22)) = ''22''" by code_simp
  have "column_cells ''bvn'' (convert_str_columns (\<lambda>v. ''[]'') [''customerNumber'', ''bvn''] df)
      = map (\<lambda>v. VStr (py_str (\<lambda>v. ''[]'') v)) (column_cells ''bvn'' df)"
    using convert_str_columns_text[OF a m c] by blast
  then show ?thesis unfolding cells using t unfolding df_def by simp
qed

text \<open>
  C7: on a rectangular frame in which neither \<open>createdAt\<close> nor \<open>updatedAt\<close> labels more
  than one column, the conversion of the two columns returns a frame and does not
  raise; the labels and the index are unchanged, and every cell of a designated column
  that the frame has is replaced by the timestamp it is read as, or by NaT when it is
  not read as one.
\<close>

theorem convert_datetime_columns_total:
  assumes "aligned df"
    and "count_list (columns df) ''createdAt'' \<le> 1"
    and "count_list (columns df) ''updatedAt'' \<le> 1"
  shows "\<exists>df'. convert_datetime_columns parse [''createdAt'', ''updatedAt''] df = Inr df' \<and>
     columns df' = columns df \<and> map fst (rows df') = map fst (rows df) \<and>
     (\<forall>col. col \<in> set [''createdAt'', ''updatedAt''] \<and> col \<in> set (columns df) \<longrightarrow>
        column_cells col df' =
          map (\<lambda>v. case parse (column_cells col df) v of
                      Some t \<Rightarrow> VTimestamp t | None \<Rightarrow> VNaT) (column_cells col df))"
proof -
  let ?c = "\<lambda>col. to_datetime_coerce parse (column_cells col df)"
  define df1 where
    "df1 = (if ''createdAt'' \<in> set (columns df) then map_column ''createdAt'' (?c ''createdAt'') df
            else df)"
  define df2 where
    "df2 = (if ''updatedAt'' \<in> set (columns df) then map_column ''updatedAt'' (?c ''updatedAt'') df1
            else df1)"
  have c1: "columns df1 = columns df" by (simp add: df1_def)
  have a1: "aligned df1" using assms(1) by (simp add: df1_def aligned_map_column)
  have u1: "column_cells ''updatedAt'' df1 = column_cells ''updatedAt'' df"
    by (simp add: df1_def column_cells_map_other)
  have step1: "convert_datetime_columns parse [''createdAt'', ''updatedAt''] df
      = convert_datetime_columns parse [''updatedAt''] df1"
    using assms(2) by (simp add: df1_def)
  have step2: "convert_datetime_columns parse [''updatedAt''] df1 = Inr df2"
    using assms(3) by (simp add: df2_def c1 u1)
  have cols: "columns df2 = columns df" by (simp add: df2_def c1)
  have idx: "map fst (rows df2) = map fst (rows df)" by (simp add: df2_def df1_def)
  have created: "column_cells ''createdAt'' df2 = map (?c ''createdAt'') (column_cells ''createdAt'' df)"
    if "''createdAt'' \<in> set (columns df)"
    using that assms(1)
    by (simp add: df2_def df1_def column_cells_map_other column_cells_map_same)
  have updated: "column_cells ''updatedAt'' df2 = map (?c ''updatedAt'') (column_cells ''updatedAt'' df)"
    if "''updatedAt'' \<in> set (columns df)"
    using that a1 c1 u1
    by (simp add: df2_def column_cells_map_same)
  have cells: "column_cells col df2 =
      map (\<lambda>v. case parse (column_cells col df) v of
                  Some t \<Rightarrow> VTimestamp t | None \<Rightarrow> VNaT) (column_cells col df)"
    if "col \<in> set [''createdAt'', ''updatedAt'']" "col \<in> set (columns df)" for col
  proof -
    have "column_cells col df2 = map (?c col) (column_cells col df)"
      using that created updated by auto
    then show ?thesis by (simp add: to_datetime_coerce_def[abs_def])
  qed
  show ?thesis
    using step1 step2 cols idx cells by auto
qed

theorem convert_datetime_columns_total_witness:
  "convert_datetime_columns
     (\<lambda>col v. if v = VStr ''2024-03-05'' then Some (Timestamp 2024 3 5 0 0 0) else None)
     [''createdAt'', ''updatedAt'']
     \<lparr>columns = [''createdAt''],
      rows = [(0, [(''createdAt'', VStr ''2024-03-05'')]), (1, [(''createdAt'', VStr ''soon'')])]\<rparr>
   = Inr \<lparr>columns = [''createdAt''],
      rows = [(0, [(''createdAt'', VTimestamp (Timestamp 2024 3 5 0 0 0))]),
              (1, [(''createdAt'', VNaT)])]\<rparr>"
proof -
  define parse :: "pyval list \<Rightarrow> pyval \<Rightarrow> timestamp option" where
    "parse = (\<lambda>col v. if v = VStr ''2024-03-05'' then Some (Timestamp 2024 3 5 0 0 0) else None)"
  define df where "df = \<lparr>columns = [''createdAt''],
      rows = [(0::nat, [(''createdAt'', VStr ''2024-03-05'')]), (1, [(''createdAt'', VStr ''soon'')])]\<rparr>"
  have a: "aligned df" unfolding df_def by (simp add: aligned_def)
  have c: "count_list (columns df) ''createdAt'' \<le> 1" unfolding df_def by simp
  have u: "count_list (columns df) ''updatedAt'' \<le> 1" unfolding df_def by simp
  obtain df' where r: "convert_datetime_columns parse [''createdAt'', ''updatedAt''] df = Inr df'"
    using convert_datetime_columns_total[OF a c u, of parse] by blast
  have "convert_datetime_columns parse [''createdAt'', ''updatedAt''] df
     = Inr \<lparr>columns = [''createdAt''],
      rows = [(0, [(''createdAt'', VTimestamp (Timestamp 2024 3 5 0 0 0))]),
              (1, [(''createdAt'', VNaT)])]\<rparr>"
    using r unfolding df_def parse_def by code_simp
  then show ?thesis unfolding df_def parse_def .
qed

section \<open>Claims about the consolidator\<close>

lemma enumerate_rows_fst [simp]: "map fst (enumerate_rows rs) = [0..<length rs]"
  by (simp add: enumerate_rows_def)

lemma enumerate_rows_snd [simp]: "map snd (enumerate_rows rs) = rs"
  by (simp add: enumerate_rows_def)

lemma map_snd_enumerate_rows:
  "map (\<lambda>ir. row_cell (snd ir) c) (enumerate_rows rs) = map (\<lambda>r. row_cell r c) rs"
  by (rule nth_equalityI) (simp_all add: enumerate_rows_def)

lemma row_cell_reindex_row:
  "c \<in> set cols \<Longrightarrow> row_cell (reindex_row cols r) c = row_cell r c"
proof -
  have "k \<in> set ks \<Longrightarrow> map_of (map (\<lambda>c. (c, f c)) ks) k = Some (f k)" for k ks and f :: "string \<Rightarrow> pyval"
    by (induction ks) auto
  then show "c \<in> set cols \<Longrightarrow> row_cell (reindex_row cols r) c = row_cell r c"
    by (simp add: reindex_row_def row_cell_def)
qed

lemma pd_concat_rows:
  assumes "pd_concat a b = Inr d"
  shows "map fst (rows d) = [0..<length (rows a) + length (rows b)]"
    and "c \<in> set (columns a) \<union> set (columns b) \<Longrightarrow>
         column_cells c d = column_cells c a @ column_cells c b"
proof -
  show "map fst (rows d) = [0..<length (rows a) + length (rows b)]"
    using assms by (auto simp: pd_concat_def Let_def split: if_splits)
  assume c: "c \<in> set (columns a) \<union> set (columns b)"
  show "column_cells c d = column_cells c a @ column_cells c b"
  proof (cases "columns a = columns b")
    case True
    then show ?thesis
      using assms by (auto simp: pd_concat_def column_cells_def map_snd_enumerate_rows comp_def)
  next
    case False
    let ?cols = "columns a @ filter (\<lambda>c. c \<notin> set (columns a)) (columns b)"
    have "c \<in> set ?cols" using c by auto
    then have cell: "row_cell (reindex_row ?cols r) c = row_cell r c" for r
      by (rule row_cell_reindex_row)
    show ?thesis
      using assms False
      by (auto simp: pd_concat_def Let_def column_cells_def map_snd_enumerate_rows comp_def cell
          split: if_splits)
  qed
qed

lemma convert_datetime_columns_others:
  "convert_datetime_columns parse cols df = Inr df' \<Longrightarrow>
   map fst (rows df') = map fst (rows df) \<and> columns df' = columns df \<and>
   (c \<notin> set cols \<longrightarrow> column_cells c df' = column_cells c df)"
proof (induction cols arbitrary: df)
  case Nil
  then show ?case by simp
next
  case (Cons col cols)
  show ?case
  proof (cases "col \<in> set (columns df)")
    case True
    let ?df1 = "map_column col (to_datetime_coerce parse (column_cells col df)) df"
    from Cons.prems True have "convert_datetime_columns parse cols ?df1 = Inr df'"
      by (simp split: if_splits)
    from Cons.IH[OF this] show ?thesis
      by (auto simp: column_cells_map_other)
  next
    case False
    with Cons.prems have "convert_datetime_columns parse cols df = Inr df'" by simp
    from Cons.IH[OF this] show ?thesis by auto
  qed
qed

lemma convert_str_columns_others:
  "map fst (rows (convert_str_columns ctext cols df)) = map fst (rows df) \<and>
   columns (convert_str_columns ctext cols df) = columns df \<and>
   (c \<notin> set cols \<longrightarrow> column_cells c (convert_str_columns ctext cols df) = column_cells c df)"
  by (induction cols arbitrary: df) (auto simp: column_cells_map_other)

lemma reset_index_rows:
  "map fst (rows (reset_index df)) = [0..<length (rows df)]"
  "column_cells c (reset_index df) = column_cells c df"
  by (simp_all add: reset_index_def column_cells_def map_snd_enumerate_rows comp_def)

text \<open>
  C5: a frame that the consolidation returns is labelled 0, 1, ... up to the number of
  Individual rows plus the number of Corporate rows; and every column that is not one of
  the four that the type normalizer rewrites holds the cells of the Individual rows, in
  their order, followed by the cells of the Corporate rows, in their order. So with
  three Individual and two Corporate rows the result has the labels 0 to 4, the
  Individual rows at 0 to 2 and the Corporate rows at 3 and 4.
\<close>

theorem consolidate_order:
  assumes "consolidate parse ctext df_ind df_corp = Inr df_final"
  shows "map fst (rows df_final) = [0..<length (rows df_ind) + length (rows df_corp)] \<and>
     (\<forall>c. c \<in> set (columns df_ind) \<union> set (columns df_corp) \<and>
          c \<notin> set [''createdAt'', ''updatedAt'', ''customerNumber'', ''bvn''] \<longrightarrow>
          column_cells c df_final = column_cells c df_ind @ column_cells c df_corp)"
proof -
  from assms obtain d0 d1 where
    d0: "pd_concat df_ind df_corp = Inr d0" and
    d1: "convert_datetime_columns parse [''createdAt'', ''updatedAt''] d0 = Inr d1" and
    fin: "df_final = reset_index (convert_str_columns ctext [''customerNumber'', ''bvn''] d1)"
    by (auto simp: consolidate_def then_do_Inr)
  let ?d2 = "convert_str_columns ctext [''customerNumber'', ''bvn''] d1"
  have len: "length (rows ?d2) = length (rows df_ind) + length (rows df_corp)"
  proof -
    have "map fst (rows ?d2) = map fst (rows d0)"
      using convert_str_columns_others[of ctext _ d1] convert_datetime_columns_others[OF d1]
      by simp
    then have "length (rows ?d2) = length (rows d0)" by (metis length_map)
    moreover have "length (rows d0) = length (rows df_ind) + length (rows df_corp)"
      using pd_concat_rows(1)[OF d0] by (metis length_map length_upt minus_nat.diff_0)
    ultimately show ?thesis by simp
  qed
  have idx: "map fst (rows df_final) = [0..<length (rows df_ind) + length (rows df_corp)]"
    unfolding fin using len by (simp add: reset_index_rows(1))
  have cells: "column_cells c df_final = column_cells c df_ind @ column_cells c df_corp"
    if mem: "c \<in> set (columns df_ind) \<union> set (columns df_corp)"
      and other: "c \<notin> set [''createdAt'', ''updatedAt'', ''customerNumber'', ''bvn'']" for c
  proof -
    have "column_cells c df_final = column_cells c ?d2"
      unfolding fin by (rule reset_index_rows(2))
    also have "\<dots> = column_cells c d1"
      using convert_str_columns_others[of ctext "[''customerNumber'', ''bvn'']" d1 c] other
      by simp
    also have "\<dots> = column_cells c d0"
      using convert_datetime_columns_others[OF d1, of c] other by simp
    also have "\<dots> = column_cells c df_ind @ column_cells c df_corp"
      using pd_concat_rows(2)[OF d0 mem] .
    finally show ?thesis .
  qed
  show ?thesis using idx cells by blast
qed

theorem consolidate_order_witness:
  "consolidate (\<lambda>col v. None) (\<lambda>v. ''[]'')
     \<lparr>columns = [''customerName''],
      rows = [(1, [(''customerName'', VStr ''Ada'')]), (3, [(''customerName'', VStr ''Bola'')]),
              (4, [(''customerName'', VStr ''Chi'')])]\<rparr>
     \<lparr>columns = [''customerName''],
      rows = [(0, [(''customerName'', VStr ''Acme'')]), (2, [(''customerName'', VStr ''Zenith'')])]\<rparr>
   = Inr \<lparr>columns = [''customerName''],
      rows = [(0, [(''customerName'', VStr ''Ada'')]), (1, [(''customerName'', VStr ''Bola'')]),
              (2, [(''customerName'', VStr ''Chi'')]), (3, [(''customerName'', VStr ''Acme'')]),
              (4, [(''customerName'', VStr ''Zenith'')])]\<rparr> \<and>
   map fst [(0::nat, [(''customerName'', VStr ''Ada'')]), (1, [(''customerName'', VStr ''Bola'')]),
              (2, [(''customerName'', VStr ''Chi'')]), (3, [(''customerName'', VStr ''Acme'')]),
              (4, [(''customerName'', VStr ''Zenith'')])] = [0, 1, 2, 3, 4]"
proof -
  define df_ind where "df_ind = \<lparr>columns = [''customerName''],
      rows = [(1::nat, [(''customerName'', VStr ''Ada'')]), (3, [(''customerName'', VStr ''Bola'')]),
              (4, [(''customerName'', VStr ''Chi'')])]\<rparr>"
  define df_corp where "df_corp = \<lparr>columns = [''customerName''],
      rows = [(0::nat, [(''customerName'', VStr ''Acme'')]), (2, [(''customerName'', VStr ''Zenith'')])]\<rparr>"
  define df_final where "df_final = \<lparr>columns = [''customerName''],
      rows = [(0::nat, [(''customerName'', VStr ''Ada'')]), (1, [(''customerName'', VStr ''Bola'')]),
              (2, [(''customerName'', VStr ''Chi'')]), (3, [(''customerName'', VStr ''Acme'')]),
              (4, [(''customerName'', VStr ''Zenith'')])]\<rparr>"
  have run: "consolidate (\<lambda>col v. None) (\<lambda>v. ''[]'') df_ind df_corp = Inr df_final"
    unfolding df_ind_def df_corp_def df_final_def by code_simp
  have "map fst (rows df_final) = [0..<length (rows df_ind) + length (rows df_corp)]"
    using consolidate_order[OF run] by blast
  then show ?thesis
    using run unfolding df_ind_def df_corp_def df_final_def by simp
qed

section \<open>Claims about the field projector\<close>

lemma set_dict_values: "set (dict_values m) = ran (map_of m)"
proof -
  have "the (map_of m k) \<in> ran (map_of m)" if "k \<in> fst ` set m" for k
    using that by (metis domIff dom_map_of_conv_image_fst option.exhaust_sel ranI)
  moreover have "v \<in> (\<lambda>k. the (map_of m k)) ` fst ` set m" if "v \<in> ran (map_of m)" for v
  proof -
    from that obtain k where k: "map_of m k = Some v" by (auto simp: ran_def)
    then have "k \<in> fst ` set m" by (metis domI dom_map_of_conv_image_fst)
    then show ?thesis using k by force
  qed
  ultimately show ?thesis by (auto simp: dict_values_def)
qed

lemma set_dict_keys: "set (dict_keys d) = dom (map_of d)"
  by (simp add: dict_keys_def dom_map_of_conv_image_fst)

lemma set_required_columns:
  "set (required_columns m defaults) = ran (map_of m) \<union> dom (map_of defaults)"
  by (simp add: required_columns_def set_dict_values set_dict_keys)

lemma distinct_required_columns: "distinct (required_columns m defaults)"
  by (simp add: required_columns_def)

lemma labels_relabel: "map fst (relabel f r) = map f (map fst r)"
  by (simp add: relabel_def comp_def)

lemma aligned_rename_columns:
  assumes "aligned df"
  shows "aligned (rename_columns m df)"
proof -
  have "map fst (snd ir') = columns (rename_columns m df)"
    if "ir' \<in> set (rows (rename_columns m df))" for ir'
  proof -
    from that obtain ir where ir: "ir \<in> set (rows df)"
      and eq: "snd ir' = relabel (\<lambda>c. dict_get m c c) (snd ir)"
      by (auto simp: rename_columns_def)
    have "map fst (snd ir) = columns df"
      using assms ir by (simp add: aligned_def list_all_iff)
    then show ?thesis
      unfolding eq labels_relabel by (simp add: rename_columns_def)
  qed
  then show ?thesis by (simp add: aligned_def list_all_iff)
qed

lemma set_missing_columns: "set (missing_columns cs cols) = set cs - set cols"
  by (induction cs arbitrary: cols) auto

lemma distinct_missing_columns: "distinct (missing_columns cs cols)"
  by (induction cs arbitrary: cols) (auto simp: set_missing_columns)

lemma ensure_columns_char:
  "aligned df \<Longrightarrow>
   ensure_columns cs defaults df =
     df\<lparr>columns := columns df @ missing_columns cs (columns df),
        rows := map (\<lambda>ir. (fst ir, snd ir @
                  map (\<lambda>c. (c, Sc (dict_get defaults c (SStr '''')))) (missing_columns cs (columns df))))
                  (rows df)\<rparr>"
proof (induction cs arbitrary: df)
  case Nil
  then show ?case by simp
next
  case (Cons c cs)
  show ?case
  proof (cases "c \<in> set (columns df)")
    case True
    then show ?thesis using Cons.IH[OF Cons.prems] by simp
  next
    case False
    let ?v = "Sc (dict_get defaults c (SStr ''''))"
    let ?df1 = "assign_scalar c ?v df"
    have lab: "c \<notin> fst ` set (snd ir)" if "ir \<in> set (rows df)" for ir
      using aligned_label[OF Cons.prems that] False by simp
    have rows1: "rows ?df1 = map (\<lambda>ir. (fst ir, snd ir @ [(c, ?v)])) (rows df)"
      using lab by (simp add: assign_scalar_def set_cell_def)
    have cols1: "columns ?df1 = columns df @ [c]"
      using False by (simp add: assign_scalar_def add_label_def)
    have a1: "aligned ?df1"
      using Cons.prems by (auto simp: aligned_def rows1 cols1 list_all_iff)
    show ?thesis
      using False Cons.IH[OF a1] by (simp add: rows1 cols1 comp_def)
  qed
qed

lemma filter_label_concat:
  "distinct cols \<Longrightarrow> c \<in> set cols \<Longrightarrow>
   filter (\<lambda>kv. fst kv = c) (concat (map (\<lambda>c'. filter (\<lambda>kv. fst kv = c') r) cols))
     = filter (\<lambda>kv. fst kv = c) r"
proof (induction cols)
  case Nil
  then show ?case by simp
next
  case (Cons a cols)
  have none: "filter (\<lambda>kv. fst kv = c) (concat (map (\<lambda>c'. filter (\<lambda>kv. fst kv = c') r) cs)) = []"
    if "c \<notin> set cs" for cs
    using that by (induction cs) (auto simp: filter_empty_conv)
  show ?case
  proof (cases "a = c")
    case True
    then have "c \<notin> set cols" using Cons.prems(1) by simp
    then show ?thesis using True none by (simp add: conj_commute)
  next
    case False
    then have "filter (\<lambda>kv. fst kv = c) (filter (\<lambda>kv. fst kv = a) r) = []"
      by (auto simp: filter_empty_conv)
    then show ?thesis using Cons False by simp
  qed
qed

lemma labels_concat_filter:
  "set (map fst (concat (map (\<lambda>c. filter (\<lambda>kv. fst kv = c) r) cols))) = set cols \<inter> fst ` set r"
  by (induction cols) auto

lemma select_columns_ok:
  assumes "set cols \<subseteq> set (columns df)"
  shows "select_columns cols df =
     Inr (df\<lparr>columns := concat (map (\<lambda>c. filter (\<lambda>k. k = c) (columns df)) cols),
             rows := map (\<lambda>ir. (fst ir,
                concat (map (\<lambda>c. filter (\<lambda>kv. fst kv = c) (snd ir)) cols))) (rows df)\<rparr>)"
  using assms by (auto simp: select_columns_def list_ex_iff)

lemma set_concat_filter_labels:
  "set (concat (map (\<lambda>c. filter (\<lambda>k. k = c) ks) cols)) = set cols \<inter> set ks"
  by (induction cols) auto

lemma filter_label_fill:
  "distinct ys \<Longrightarrow> c \<in> set ys \<Longrightarrow>
   filter (\<lambda>kv. fst kv = c) (map (\<lambda>c. (c, Sc (dict_get defaults c (SStr '''')))) ys)
     = [(c, Sc (dict_get defaults c (SStr '''')))]"
  by (induction ys) (auto simp: filter_empty_conv)

text \<open>
  C1: projecting a rectangular frame returns a frame, with as many rows; its set of
  columns, and the set of keys of every one of its records, is exactly
  \<open>rename.values() \<union> defaults.keys()\<close>; and under a required field that no column has
  after the renaming, every record holds one cell, \<open>defaults.get(field, "")\<close>.
\<close>

theorem project_key_set:
  assumes "aligned df"
  shows "\<exists>df'. project m defaults df = Inr df' \<and>
     set (columns df') = ran (map_of m) \<union> dom (map_of defaults) \<and>
     map fst (rows df') = map fst (rows df) \<and>
     list_all (\<lambda>ir. set (map fst (snd ir)) = ran (map_of m) \<union> dom (map_of defaults)) (rows df') \<and>
     (\<forall>c. c \<in> ran (map_of m) \<union> dom (map_of defaults) \<and>
          c \<notin> set (columns (rename_columns m df)) \<longrightarrow>
          list_all (\<lambda>ir. filter (\<lambda>kv. fst kv = c) (snd ir)
                          = [(c, Sc (dict_get defaults c (SStr '''')))]) (rows df'))"
proof -
  let ?req = "required_columns m defaults"
  let ?df1 = "rename_columns m df"
  let ?miss = "missing_columns ?req (columns ?df1)"
  let ?fill = "map (\<lambda>c. (c, Sc (dict_get defaults c (SStr '''')))) ?miss"
  let ?df2 = "ensure_columns ?req defaults ?df1"
  let ?S = "ran (map_of m) \<union> dom (map_of defaults)"
  have a1: "aligned ?df1" using assms by (rule aligned_rename_columns)
  have df2: "?df2 = ?df1\<lparr>columns := columns ?df1 @ ?miss,
       rows := map (\<lambda>ir. (fst ir, snd ir @ ?fill)) (rows ?df1)\<rparr>"
    using ensure_columns_char[OF a1] .
  have cols2: "columns ?df2 = columns ?df1 @ ?miss" by (subst df2) simp
  have rows2: "rows ?df2 = map (\<lambda>ir. (fst ir, snd ir @ ?fill)) (rows ?df1)" by (subst df2) simp
  have sub: "set ?req \<subseteq> set (columns ?df2)"
    by (auto simp: cols2 set_missing_columns)
  define df' where "df' = ?df2\<lparr>columns := concat (map (\<lambda>c. filter (\<lambda>k. k = c) (columns ?df2)) ?req),
       rows := map (\<lambda>ir. (fst ir,
          concat (map (\<lambda>c. filter (\<lambda>kv. fst kv = c) (snd ir)) ?req))) (rows ?df2)\<rparr>"
  have run: "project m defaults df = Inr df'"
    unfolding df'_def using select_columns_ok[OF sub] by (simp add: project_def Let_def)
  have cols: "set (columns df') = ?S"
    using sub by (auto simp: df'_def set_concat_filter_labels set_required_columns[symmetric])
  have idx1: "map fst (rows ?df1) = map fst (rows df)"
    by (simp add: rename_columns_def comp_def)
  have idx: "map fst (rows df') = map fst (rows df)"
    using idx1 by (simp add: df'_def rows2 comp_def)
  have lab2: "fst ` set (snd ir) = set (columns ?df1) \<union> set ?miss" if "ir \<in> set (rows ?df2)" for ir
  proof -
    from that obtain ir1 where ir1: "ir1 \<in> set (rows ?df1)" and eq: "ir = (fst ir1, snd ir1 @ ?fill)"
      by (auto simp: rows2)
    have "fst ` set (snd ir1) = set (columns ?df1)" using aligned_label[OF a1 ir1] .
    then show ?thesis by (auto simp: eq image_Un image_image)
  qed
  have keys: "list_all (\<lambda>ir. set (map fst (snd ir)) = ?S) (rows df')"
  proof -
    have "set (map fst (snd ir')) = ?S" if "ir' \<in> set (rows df')" for ir'
    proof -
      from that obtain ir where ir: "ir \<in> set (rows ?df2)"
        and eq: "snd ir' = concat (map (\<lambda>c. filter (\<lambda>kv. fst kv = c) (snd ir)) ?req)"
        by (auto simp: df'_def)
      have "set ?req \<subseteq> fst ` set (snd ir)"
        using lab2[OF ir] by (auto simp: set_missing_columns)
      then show ?thesis
        unfolding eq labels_concat_filter by (auto simp: set_required_columns[symmetric])
    qed
    then show ?thesis by (simp add: list_all_iff)
  qed
  have fill: "list_all (\<lambda>ir. filter (\<lambda>kv. fst kv = c) (snd ir)
        = [(c, Sc (dict_get defaults c (SStr '''')))]) (rows df')"
    if req: "c \<in> ?S" and absent: "c \<notin> set (columns ?df1)" for c
  proof -
    have creq: "c \<in> set ?req" using req by (simp add: set_required_columns)
    have cmiss: "c \<in> set ?miss" using creq absent by (simp add: set_missing_columns)
    have one: "filter (\<lambda>kv. fst kv = c) ?fill = [(c, Sc (dict_get defaults c (SStr '''')))]"
      using distinct_missing_columns cmiss by (rule filter_label_fill)
    have "filter (\<lambda>kv. fst kv = c) (snd ir') = [(c, Sc (dict_get defaults c (SStr '''')))]"
      if "ir' \<in> set (rows df')" for ir'
    proof -
      from that obtain ir1 where ir1: "ir1 \<in> set (rows ?df1)"
        and eq: "snd ir' = concat (map (\<lambda>c. filter (\<lambda>kv. fst kv = c) (snd ir1 @ ?fill)) ?req)"
        by (auto simp: df'_def rows2)
      have "c \<notin> fst ` set (snd ir1)" using aligned_label[OF a1 ir1] absent by simp
      then have none: "filter (\<lambda>kv. fst kv = c) (snd ir1) = []"
        by (auto simp: filter_empty_conv)
      have "filter (\<lambda>kv. fst kv = c) (snd ir') = filter (\<lambda>kv. fst kv = c) (snd ir1 @ ?fill)"
        unfolding eq using filter_label_concat[OF distinct_required_columns creq] .
      then show ?thesis using none one by simp
    qed
    then show ?thesis by (simp add: list_all_iff)
  qed
  show ?thesis
  proof (intro exI[of _ df'] conjI allI impI)
    show "project m defaults df = Inr df'" by (rule run)
    show "set (columns df') = ?S" by (rule cols)
    show "map fst (rows df') = map fst (rows df)" by (rule idx)
    show "list_all (\<lambda>ir. set (map fst (snd ir)) = ?S) (rows df')" by (rule keys)
    show "list_all (\<lambda>ir. filter (\<lambda>kv. fst kv = c) (snd ir)
        = [(c, Sc (dict_get defaults c (SStr '''')))]) (rows df')"
      if "c \<in> ?S \<and> c \<notin> set (columns ?df1)" for c
      using that fill by blast
  qed
qed

theorem project_key_set_witness:
  "project [(''cust_name'', ''customerName'')]
     [(''customerName'', SStr ''Unknown''), (''status'', SStr ''ACTIVE'')]
     \<lparr>columns = [''customer_type'', ''cust_name''],
      rows = [(0, [(''customer_type'', VStr ''SME''), (''cust_name'', VStr ''Acme'')])]\<rparr>
   = Inr \<lparr>columns = [''customerName'', ''status''],
      rows = [(0, [(''customerName'', VStr ''Acme''), (''status'', VStr ''ACTIVE'')])]\<rparr> \<and>
   project [(''cust_name'', ''customerName'')]
     [(''customerName'', SStr ''Unknown''), (''status'', SStr ''ACTIVE'')]
     \<lparr>columns = [''customer_type''], rows = [(0, [(''customer_type'', VStr ''SME'')])]\<rparr>
   = Inr \<lparr>columns = [''customerName'', ''status''],
      rows = [(0, [(''customerName'', VStr ''Unknown''), (''status'', VStr ''ACTIVE'')])]\<rparr>"
proof -
  define m where "m = [(''cust_name'', ''customerName'')]"
  define d where "d = [(''customerName'', SStr ''Unknown''), (''status'', SStr ''ACTIVE'')]"
  define df where "df = \<lparr>columns = [''customer_type'', ''cust_name''],
      rows = [(0::nat, [(''customer_type'', VStr ''SME''), (''cust_name'', VStr ''Acme'')])]\<rparr>"
  have a: "aligned df" unfolding df_def by (simp add: aligned_def)
  obtain df' where r: "project m d df = Inr df'"
    using project_key_set[OF a, of m d] by blast
  have first: "project m d df = Inr \<lparr>columns = [''customerName'', ''status''],
      rows = [(0, [(''customerName'', VStr ''Acme''), (''status'', VStr ''ACTIVE'')])]\<rparr>"
    using r unfolding m_def d_def df_def by code_simp
  have second: "project m d
     \<lparr>columns = [''customer_type''], rows = [(0, [(''customer_type'', VStr ''SME'')])]\<rparr>
   = Inr \<lparr>columns = [''customerName'', ''status''],
      rows = [(0, [(''customerName'', VStr ''Unknown''), (''status'', VStr ''ACTIVE'')])]\<rparr>"
    unfolding m_def d_def by code_simp
  show ?thesis using first second unfolding m_def d_def df_def by simp
qed

section \<open>Claims about the join\<close>

lemma filter_key_at_most_one:
  "distinct (map f xs) \<Longrightarrow> length (filter (\<lambda>x. f x = k) xs) \<le> 1"
proof (induction xs)
  case Nil
  then show ?case by simp
next
  case (Cons x xs)
  show ?case
  proof (cases "f x = k")
    case True
    then have "\<forall>y\<in>set xs. f y \<noteq> k"
      using Cons.prems by (auto simp: image_iff)
    then have "filter (\<lambda>x. f x = k) xs = []"
      by (simp add: filter_empty_conv)
    then show ?thesis using True by simp
  next
    case False
    then show ?thesis using Cons by simp
  qed
qed












section \<open>Where the document builder returns\<close>

lemma json_value_returns:
  assumes "case v of VList xs \<Rightarrow> length xs \<le> 1 | _ \<Rightarrow> True"
  shows "\<exists>w. json_value (Cell v) = Inr w"
proof (cases v)
  case (Sc s)
  then show ?thesis by (cases s) (simp_all add: format_timestamp_def)
next
  case (VList xs)
  then have "length xs \<le> 1" using assms by simp
  then have "xs = [] \<or> (\<exists>x. xs = [x])"
    by (cases xs) auto
  then show ?thesis using VList by (auto simp: format_timestamp_def)
next
  case (VDict d)
  then show ?thesis by (simp add: format_timestamp_def)
qed

lemma resolve_cell:
  assumes "distinct (map fst r)"
  shows "resolve r defaults f = Cell (Sc (dict_get defaults f (SStr ''''))) \<or>
         (\<exists>kv. kv \<in> set r \<and> resolve r defaults f = Cell (snd kv))"
proof -
  have "length (filter (\<lambda>kv. fst kv = f) r) \<le> 1"
    using assms by (rule filter_key_at_most_one)
  then have "filter (\<lambda>kv. fst kv = f) r = [] \<or> (\<exists>kv. filter (\<lambda>kv. fst kv = f) r = [kv])"
    by (cases "filter (\<lambda>kv. fst kv = f) r") auto
  then show ?thesis
  proof
    assume "filter (\<lambda>kv. fst kv = f) r = []"
    then show ?thesis by (simp add: resolve_def series_get_def)
  next
    assume "\<exists>kv. filter (\<lambda>kv. fst kv = f) r = [kv]"
    then obtain kv where one: "filter (\<lambda>kv. fst kv = f) r = [kv]" by blast
    then have "kv \<in> set (filter (\<lambda>kv. fst kv = f) r)" by simp
    then have mem: "kv \<in> set r" by simp
    have "resolve r defaults f = Cell (snd kv)"
      using one by (simp add: resolve_def series_get_def)
    then show ?thesis using mem by blast
  qed
qed

text \<open>
  \<open>build_json\<close> returns a document for every record that carries no label twice and no
  list of two or more elements.
\<close>

lemma build_json_returns:
  assumes "distinct (map fst r)"
    and "list_all (\<lambda>kv. case snd kv of VList xs \<Rightarrow> length xs \<le> 1 | _ \<Rightarrow> True) r"
  shows "\<exists>doc. build_json r json_fields defaults = Inr doc"
proof -
  have val: "\<exists>w. json_value (resolve r defaults f) = Inr w" for f
  proof -
    from resolve_cell[OF assms(1), of defaults f]
    show ?thesis
    proof
      assume "resolve r defaults f = Cell (Sc (dict_get defaults f (SStr '''')))"
      then show ?thesis using json_value_returns[of "Sc (dict_get defaults f (SStr ''''))"]
        by simp
    next
      assume "\<exists>kv. kv \<in> set r \<and> resolve r defaults f = Cell (snd kv)"
      then obtain kv where kv: "kv \<in> set r" "resolve r defaults f = Cell (snd kv)" by blast
      have "case snd kv of VList xs \<Rightarrow> length xs \<le> 1 | _ \<Rightarrow> True"
        using assms(2) kv(1) by (simp add: list_all_iff)
      then show ?thesis using json_value_returns[of "snd kv"] kv(2) by simp
    qed
  qed
  have "\<exists>doc. build_json_loop r fs defaults acc = Inr doc" for fs acc
  proof (induction fs arbitrary: acc)
    case Nil
    then show ?case by simp
  next
    case (Cons f fs)
    obtain w where w: "json_value (resolve r defaults f) = Inr w" using val by blast
    show ?case using Cons[of "dict_set acc f w"] w by simp
  qed
  then show ?thesis by (simp add: build_json_def)
qed

section \<open>A batch through the profile transformation\<close>

text \<open>
  Four staging records and two identifiers: an SME with an identifier, two Individuals
  (one of them without identifier and without name), and a record of another category,
  which the transformation drops.
\<close>

lemma transform_data_example:
  "transform_data
     (\<lambda>col v. if v = VStr ''2024-03-05'' \<or> v = VTimestamp (Timestamp 2024 3 5 0 0 0)
               then Some (Timestamp 2024 3 5 0 0 0) else None)
     (\<lambda>v. ''[]'')
     [(''cust_name'', ''customerName''), (''customer_id'', ''customerId''), (''created'', ''createdAt'')]
     [(''cust_name'', ''customerName''), (''customer_id'', ''customerId'')]
     [(''customerName'', SStr ''Unknown''), (''status'', SStr ''ACTIVE'')]
     [(''status'', SStr ''ACTIVE'')]
     [''status'', ''customerName'', ''createdAt'']
     [''customerName'']
     \<lparr>columns = [''customer_code'', ''cust_name'', ''customer_type'', ''created''],
      rows = [(0, [(''customer_code'', VStr ''C1''), (''cust_name'', VStr ''Acme''),
                   (''customer_type'', VStr ''SME''), (''created'', VStr ''2024-03-05'')]),
              (1, [(''customer_code'', VStr ''C2''), (''cust_name'', VStr ''Bola''),
                   (''customer_type'', VStr ''Individual''),
                   (''created'', VTimestamp (Timestamp 2024 3 5 0 0 0))]),
              (2, [(''customer_code'', VStr ''C3''), (''cust_name'', VStr ''Zed''),
                   (''customer_type'', VStr ''Trust''), (''created'', VNone)]),
              (3, [(''customer_code'', VStr ''C4''), (''cust_name'', VNone),
                   (''customer_type'', VStr ''Individual''), (''created'', VNone)])]\<rparr>
     \<lparr>columns = [''customer_code'', ''customer_id''],
      rows = [(0, [(''customer_code'', VStr ''C2''), (''customer_id'', Sc (SOther ''u2''))]),
              (1, [(''customer_code'', VStr ''C1''), (''customer_id'', Sc (SOther ''u1''))])]\<rparr>
   = Inr \<lparr>columns = [''customerId'', ''createdAt'', ''customerName'', ''status'',
                       ''customerProfileData''],
      rows = [(0, [(''customerId'', Sc (SOther ''u2'')),
                   (''createdAt'', VTimestamp (Timestamp 2024 3 5 0 0 0)),
                   (''customerName'', VStr ''Bola''), (''status'', VStr ''ACTIVE''),
                   (''customerProfileData'', VDict [(''status'', VStr ''ACTIVE''),
                      (''customerName'', VStr ''Bola''), (''createdAt'', VStr ''2024-03-05'')])]),
              (1, [(''customerId'', VNaN), (''createdAt'', VNaT),
                   (''customerName'', VNone), (''status'', VStr ''ACTIVE''),
                   (''customerProfileData'', VDict [(''status'', VStr ''ACTIVE''),
                      (''customerName'', VStr ''''), (''createdAt'', VStr '''')])]),
              (2, [(''customerId'', Sc (SOther ''u1'')), (''createdAt'', VNaT),
                   (''customerName'', VStr ''Acme''), (''status'', VStr ''ACTIVE''),
                   (''customerProfileData'', VDict [(''customerName'', VStr ''Acme'')])])]\<rparr>"
  by code_simp

end
